theory Spec2Isabelle
  imports Complex_Main
begin

section \<open>The Logicle transform (Logicle.cpp, FastLogicle.cpp, logicle.h)\<close>

text \<open>
  Number model. A C++ \<open>double\<close> is modelled by a \<^typ>\<open>real\<close>: arithmetic is exact,
  and the IEEE special values (NaN, the infinities) are not represented, so the
  development speaks about runs in which every intermediate value is finite and it
  says nothing about rounding. The one NaN the source stores on purpose, the initial
  \<open>last_f\<close> of \<open>solve\<close>, is modelled by \<open>None\<close>. A C++ \<open>int\<close> is modelled by an
  \<^typ>\<open>int\<close>; the sum of two \<open>int\<close> variables in the binary search, \<open>lo + hi\<close>,
  is checked against the 32-bit range (see \<open>IntegerOverflow\<close> below).
  \<open>floor\<close>, \<open>ceil\<close> and the cast \<open>(int) floor(x)\<close> are the integer floor and
  ceiling. Where the source divides by zero it computes an infinity or a NaN and goes
  on; the model writes that case out where valid parameters reach it (see
  \<open>NonFinite\<close> below).
\<close>

subsection \<open>Exceptions\<close>

text \<open>
  \<open>Logicle::IllegalArgument\<close> has one constructor for a \<open>double\<close> and one for an
  \<open>int\<close>; its message is printed from the value. \<open>IllegalParameter\<close> and
  \<open>DidNotConverge\<close> carry the message they are thrown with.
\<close>

datatype exception =
    IllegalArgument_double real
  | IllegalArgument_int int
  | IllegalParameter string
  | DidNotConverge string
  | BadArrayNewLength
  | NonFinite
  | OutOfBounds
  | IntegerOverflow

text \<open>
  \<open>BadArrayNewLength\<close> is the \<open>std::bad_array_new_length\<close> of a \<open>new double[n]\<close> with
  negative \<open>n\<close>. \<open>NonFinite\<close>, \<open>OutOfBounds\<close> and \<open>IntegerOverflow\<close> are no
  exceptions of the source.
  \<open>NonFinite\<close> marks the one place where a construction with valid parameters leaves
  the finite numbers: the division by \<open>1 - zero\<close> in \<open>Logicle::initialize\<close> when
  \<open>zero\<close> has been rounded to \<open>1\<close>. The source raises nothing there; it goes on with
  an infinite \<open>A\<close> and stores NaN in the derived parameters. The model stops with
  \<open>NonFinite\<close> instead, so that a construction that returns a parameter structure is
  one with finite parameters. \<open>OutOfBounds\<close> marks a store outside the label vector
  of \<open>axisLabels\<close>, and \<open>IntegerOverflow\<close> a sum of two \<open>int\<close> values outside the
  range of \<open>int\<close>; in both places the behaviour of the source is undefined.
\<close>

subsection \<open>Constants\<close>

definition DEFAULT_DECADES :: real where
  "DEFAULT_DECADES = 45 / 10"

definition LN_10 :: real where
  "LN_10 = ln 10"

definition EPSILON :: real where
  "EPSILON = 1 / 2 ^ 52"

definition TAYLOR_LENGTH :: nat where
  "TAYLOR_LENGTH = 16"

definition DEFAULT_BINS :: int where
  "DEFAULT_BINS = 2 ^ 12"

text \<open>The range of the 32-bit \<open>int\<close> of the platforms the library is built for.\<close>

definition INT_MAX :: int where
  "INT_MAX = 2 ^ 31 - 1"

definition INT_MIN :: int where
  "INT_MIN = - (2 ^ 31)"

subsection \<open>The parameter structure\<close>

text \<open>
  \<open>struct logicle_params\<close>. A field \<open>p->T\<close> is written \<open>p_T p\<close>. The fields
  \<open>lookup\<close> and \<open>bins\<close> are only set and read by \<open>FastLogicle\<close>; they form the
  extension \<open>fast_params\<close>, and the functions of \<open>Logicle\<close> work on both records.
\<close>

record logicle_params =
  p_T :: real
  p_W :: real
  p_M :: real
  p_A :: real
  p_a :: real
  p_b :: real
  p_c :: real
  p_d :: real
  p_f :: real
  p_w :: real
  p_x0 :: real
  p_x1 :: real
  p_x2 :: real
  p_xTaylor :: real
  p_taylor :: "real list"

record fast_params = logicle_params +
  p_lookup :: "real list"
  p_bins :: int

subsection \<open>Loops\<close>

text \<open>
  One pass through the body of a \<open>for\<close> loop either leaves the function with a
  \<open>return\<close> or hands the updated local variables to the next pass.
\<close>

datatype ('r, 's) pass = Return 'r | Continue 's

subsection \<open>Logicle::solve\<close>

text \<open>
  The local variables that live across the passes of the loop of \<open>solve\<close>:
  \<open>(d, d_lo, d_hi, last_delta, f, last_f)\<close>.
\<close>

type_synonym solve_vars = "real \<times> real \<times> real \<times> real \<times> real \<times> real option"

definition solve_body :: "real \<Rightarrow> real \<Rightarrow> real \<Rightarrow> solve_vars \<Rightarrow> (real, solve_vars) pass" where
  "solve_body w tolerance f_b = (\<lambda>(d, d_lo, d_hi, last_delta, f, last_f).
     let df = 2 / d + w;
         bisect = (((d - d_hi) * df - f) * ((d - d_lo) * df - f) \<ge> 0
                   \<or> \<bar>19 / 10 * f\<bar> > \<bar>last_delta * df\<bar>);
         delta = (if bisect then (d_hi - d_lo) / 2 else f / df);
         d' = (if bisect then d_lo + delta else d - delta);
         unchanged = (if bisect then d' = d_lo else d' = d)
     in if unchanged then Return d'
        else if \<bar>delta\<bar> < tolerance then Return d'
        else let f' = 2 * ln d' + w * d' + f_b
             in if f' = 0 \<or> Some f' = last_f then Return d'
                else if f' < 0 then Continue (d', d', d_hi, delta, f', Some f')
                else Continue (d', d_lo, d', delta, f', Some f'))"

function solve_loop :: "real \<Rightarrow> real \<Rightarrow> real \<Rightarrow> int \<Rightarrow> solve_vars \<Rightarrow> exception + real" where
  "solve_loop w tolerance f_b i vars =
     (if i < 20 then
        (case solve_body w tolerance f_b vars of
           Return r \<Rightarrow> Inr r
         | Continue vars' \<Rightarrow> solve_loop w tolerance f_b (i + 1) vars')
      else Inl (DidNotConverge ''exceeded maximum iterations in solve()''))"
  by pat_completeness auto
termination
  by (relation "measure (\<lambda>(w, tolerance, f_b, i, vars). nat (20 - i))") auto

definition solve :: "real \<Rightarrow> real \<Rightarrow> exception + real" where
  "solve b w =
     (if w = 0 then Inr b
      else let tolerance = 2 * b * EPSILON;
               d_lo = 0;
               d_hi = b;
               d = (d_lo + d_hi) / 2;
               last_delta = d_hi - d_lo;
               f_b = - 2 * ln b + w * b;
               f = 2 * ln d + w * d + f_b
           in solve_loop w tolerance f_b 1 (d, d_lo, d_hi, last_delta, f, None))"

subsection \<open>Logicle::initialize\<close>

text \<open>
  The loop that fills \<open>p->taylor\<close> has the variables \<open>(posCoef, negCoef, taylor)\<close>;
  \<open>new double[TAYLOR_LENGTH]\<close> is a list of that length, every entry of which the loop
  overwrites. In the bin adjustment of \<open>initialize\<close> the new \<open>A\<close> is \<open>None\<close> where the
  source divides by zero, and the adjusted value otherwise.
\<close>

definition taylor_body :: "real \<Rightarrow> real \<Rightarrow> nat \<Rightarrow> real \<times> real \<times> real list \<Rightarrow> real \<times> real \<times> real list" where
  "taylor_body b d i = (\<lambda>(posCoef, negCoef, taylor).
     let posCoef' = posCoef * (b / (real i + 1));
         negCoef' = negCoef * (- d / (real i + 1))
     in (posCoef', negCoef', taylor[i := posCoef' + negCoef']))"

definition taylor_loop :: "real \<Rightarrow> real \<Rightarrow> real \<Rightarrow> real \<Rightarrow> real list" where
  "taylor_loop b d posCoef negCoef =
     snd (snd (fold (taylor_body b d) [0 ..< TAYLOR_LENGTH]
       (posCoef, negCoef, replicate TAYLOR_LENGTH 0)))"

definition Logicle_initialize :: "real \<Rightarrow> real \<Rightarrow> real \<Rightarrow> real \<Rightarrow> int \<Rightarrow> exception + logicle_params" where
  "Logicle_initialize T W M A bins =
     (if T \<le> 0 then Inl (IllegalParameter ''T is not positive'')
      else if W < 0 then Inl (IllegalParameter ''W is negative'')
      else if M \<le> 0 then Inl (IllegalParameter ''M is not positive'')
      else if 2 * W > M then Inl (IllegalParameter ''W is too large'')
      else if - A > W \<or> A + W > M - W then Inl (IllegalParameter ''A is too large'')
      else
        let A = (if bins > 0 then
                   let zero = (W + A) / (M + A);
                       zero = of_int \<lfloor>zero * of_int bins + 1 / 2\<rfloor> / of_int bins
                   in if 1 - zero = 0 then None else Some ((M * zero - W) / (1 - zero))
                 else Some A)
        in case A of
             None \<Rightarrow> Inl NonFinite
           | Some A \<Rightarrow>
               let w = W / (M + A);
                   x2 = A / (M + A);
                   x1 = x2 + w;
                   x0 = x2 + 2 * w;
                   b = (M + A) * LN_10
               in case solve b w of
                    Inl e \<Rightarrow> Inl e
                  | Inr d \<Rightarrow>
                      let c_a = exp (x0 * (b + d));
                          mf_a = exp (b * x1) - c_a / exp (d * x1);
                          a = T / ((exp b - mf_a) - c_a / exp d);
                          c = c_a * a;
                          f = - mf_a * a;
                          xTaylor = x1 + w / 4;
                          posCoef = a * exp (b * x1);
                          negCoef = - c / exp (d * x1);
                          taylor = (taylor_loop b d posCoef negCoef)[1 := 0]
                      in Inr \<lparr>p_T = T, p_W = W, p_M = M, p_A = A,
                               p_a = a, p_b = b, p_c = c, p_d = d, p_f = f,
                               p_w = w, p_x0 = x0, p_x1 = x1, p_x2 = x2,
                               p_xTaylor = xTaylor, p_taylor = taylor\<rparr>)"

text \<open>The public constructor \<open>Logicle (T, W, M, A)\<close> initializes with \<open>bins = 0\<close>.\<close>

definition Logicle :: "real \<Rightarrow> real \<Rightarrow> real \<Rightarrow> real \<Rightarrow> exception + logicle_params" where
  "Logicle T W M A = Logicle_initialize T W M A 0"

subsection \<open>Logicle::slope, seriesBiexponential, scale, inverse, dynamicRange\<close>

definition slope :: "'z logicle_params_scheme \<Rightarrow> real \<Rightarrow> real" where
  "slope p scale =
     (let scale = (if scale < p_x1 p then 2 * p_x1 p - scale else scale)
      in p_a p * p_b p * exp (p_b p * scale) + p_c p * p_d p / exp (p_d p * scale))"

text \<open>
  The Horner loop runs \<open>i\<close> from \<open>TAYLOR_LENGTH - 2\<close> down to \<open>2\<close>.
\<close>

definition seriesBiexponential :: "'z logicle_params_scheme \<Rightarrow> real \<Rightarrow> real" where
  "seriesBiexponential p scale =
     (let x = scale - p_x1 p;
          sum = p_taylor p ! (TAYLOR_LENGTH - 1) * x;
          sum = fold (\<lambda>i sum. (sum + p_taylor p ! i) * x) (rev [2 ..< TAYLOR_LENGTH - 1]) sum
      in (sum * x + p_taylor p ! 0) * x)"

definition scale_body :: "'z logicle_params_scheme \<Rightarrow> real \<Rightarrow> bool \<Rightarrow> real \<Rightarrow> real \<Rightarrow> (real, real) pass" where
  "scale_body p value negative tolerance x =
     (let ae2bx = p_a p * exp (p_b p * x);
          ce2mdx = p_c p / exp (p_d p * x);
          y = (if x < p_xTaylor p then seriesBiexponential p x - value
               else (ae2bx + p_f p) - (ce2mdx + value));
          abe2bx = p_b p * ae2bx;
          cde2mdx = p_d p * ce2mdx;
          dy = abe2bx + cde2mdx;
          ddy = p_b p * abe2bx - p_d p * cde2mdx;
          delta = y / (dy * (1 - y * ddy / (2 * dy * dy)));
          x' = x - delta
      in if \<bar>delta\<bar> < tolerance
         then Return (if negative then 2 * p_x1 p - x' else x')
         else Continue x')"

function scale_loop :: "'z logicle_params_scheme \<Rightarrow> real \<Rightarrow> bool \<Rightarrow> real \<Rightarrow> int \<Rightarrow> real \<Rightarrow> exception + real" where
  "scale_loop p value negative tolerance i x =
     (if i < 10 then
        (case scale_body p value negative tolerance x of
           Return r \<Rightarrow> Inr r
         | Continue x' \<Rightarrow> scale_loop p value negative tolerance (i + 1) x')
      else Inl (DidNotConverge ''scale() didn't converge''))"
  by pat_completeness auto
termination
  by (relation "measure (\<lambda>(p, value, negative, tolerance, i, x). nat (10 - i))") auto

definition Logicle_scale :: "'z logicle_params_scheme \<Rightarrow> real \<Rightarrow> exception + real" where
  "Logicle_scale p value =
     (if value = 0 then Inr (p_x1 p)
      else let negative = (value < 0);
               value = (if negative then - value else value);
               x = (if value < p_f p then p_x1 p + value / p_taylor p ! 0
                    else ln (value / p_a p) / p_b p);
               tolerance = (if x > 1 then 3 * x * EPSILON else 3 * EPSILON)
           in scale_loop p value negative tolerance 0 x)"

definition Logicle_inverse :: "'z logicle_params_scheme \<Rightarrow> real \<Rightarrow> exception + real" where
  "Logicle_inverse p scale =
     (let negative = (scale < p_x1 p);
          scale = (if negative then 2 * p_x1 p - scale else scale);
          inverse = (if scale < p_xTaylor p then seriesBiexponential p scale
                     else (p_a p * exp (p_b p * scale) + p_f p) - p_c p / exp (p_d p * scale))
      in if negative then Inr (- inverse) else Inr inverse)"

definition dynamicRange :: "'z logicle_params_scheme \<Rightarrow> real" where
  "dynamicRange p = slope p 1 / slope p (p_x1 p)"

subsection \<open>Logicle::axisLabels\<close>

text \<open>
  \<open>axisLabels\<close> calls the virtual \<open>this->inverse(0)\<close>, so the function is modelled
  over the \<open>inverse\<close> it dispatches to. \<open>label\<close> is the caller's vector:
  \<open>label.resize(n)\<close> keeps its first entries and fills up with zeros. A store
  \<open>label[k] = v\<close> with \<open>k\<close> outside the vector is undefined behaviour in the source;
  the model stops there with \<open>OutOfBounds\<close>.
\<close>

definition resize :: "nat \<Rightarrow> real list \<Rightarrow> real list" where
  "resize n label = take n label @ replicate (n - length label) 0"

definition store :: "real list \<Rightarrow> int \<Rightarrow> real \<Rightarrow> exception + real list" where
  "store label k v =
     (if 0 \<le> k \<and> k < int (length label) then Inr (label[nat k := v]) else Inl OutOfBounds)"

function mirror_loop :: "int \<Rightarrow> int \<Rightarrow> real list \<times> real \<Rightarrow> exception + real list \<times> real" where
  "mirror_loop nn i (label, x) =
     (if i \<le> nn then
        (case store label (nn - i) (- x) of
           Inl e \<Rightarrow> Inl e
         | Inr label \<Rightarrow>
             (case store label (nn + i) x of
                Inl e \<Rightarrow> Inl e
              | Inr label \<Rightarrow> mirror_loop nn (i + 1) (label, x * 10)))
      else Inr (label, x))"
  by pat_completeness auto
termination
  by (relation "measure (\<lambda>(nn, i, vars). nat (nn + 1 - i))") auto

function positive_loop :: "int \<Rightarrow> int \<Rightarrow> int \<Rightarrow> real list \<times> real \<Rightarrow> exception + real list \<times> real" where
  "positive_loop nn np i (label, x) =
     (if i \<le> np then
        (case store label (nn + i) x of
           Inl e \<Rightarrow> Inl e
         | Inr label \<Rightarrow> positive_loop nn np (i + 1) (label, x * 10))
      else Inr (label, x))"
  by pat_completeness auto
termination
  by (relation "measure (\<lambda>(nn, np, i, vars). nat (np + 1 - i))") auto

definition axisLabels_via ::
    "(real \<Rightarrow> exception + real) \<Rightarrow> 'z logicle_params_scheme \<Rightarrow> real list \<Rightarrow> exception + real list" where
  "axisLabels_via this_inverse p label =
     (let pd = p_M p - 2 * p_W p;
          log10x = of_int \<lceil>ln (p_T p) / LN_10 - pd\<rceil>;
          x = exp (LN_10 * log10x);
          np = (if x > p_T p then 1 else \<lfloor>ln (p_T p) / LN_10 - log10x\<rfloor> + 1);
          x = (if x > p_T p then p_T p else x)
      in case this_inverse 0 of
           Inl e \<Rightarrow> Inl e
         | Inr B \<Rightarrow>
             let nn = (if x > - B then 0
                       else if x = p_T p then 1
                       else \<lfloor>ln (- B) / LN_10 - log10x\<rfloor> + 1);
                 label = resize (nat (nn + np + 1)) label
             in case store label nn 0 of
                  Inl e \<Rightarrow> Inl e
                | Inr label \<Rightarrow>
                    (case mirror_loop nn 1 (label, x) of
                       Inl e \<Rightarrow> Inl e
                     | Inr (label, x) \<Rightarrow>
                         (case positive_loop nn np (nn + 1) (label, x) of
                            Inl e \<Rightarrow> Inl e
                          | Inr (label, x) \<Rightarrow> Inr label)))"

definition axisLabels :: "logicle_params \<Rightarrow> real list \<Rightarrow> exception + real list" where
  "axisLabels p label = axisLabels_via (Logicle_inverse p) p label"

subsection \<open>FastLogicle\<close>

text \<open>
  \<open>FastLogicle::initialize\<close>. \<open>new double[bins + 1]\<close> with a negative size throws
  \<open>std::bad_array_new_length\<close>. The loop stores \<open>Logicle::inverse (i / bins)\<close>, the
  inverse of the base class, at index \<open>i\<close>. With \<open>bins = 0\<close> the one entry of the
  table is the inverse of \<open>0 / 0\<close>: a NaN in the source, \<open>Logicle::inverse (0)\<close> in
  the model. Whatever that entry is, every call of \<open>intScale\<close>, \<open>scale\<close> and
  \<open>inverse\<close> on such an object fails with \<open>IllegalArgument\<close>.
\<close>

fun lookup_loop :: "'z logicle_params_scheme \<Rightarrow> int \<Rightarrow> int list \<Rightarrow> real list \<Rightarrow> exception + real list" where
  "lookup_loop p bins [] lookup = Inr lookup"
| "lookup_loop p bins (i # is) lookup =
     (case Logicle_inverse p (of_int i / of_int bins) of
        Inl e \<Rightarrow> Inl e
      | Inr v \<Rightarrow> lookup_loop p bins is (lookup[nat i := v]))"

definition FastLogicle_initialize :: "logicle_params \<Rightarrow> int \<Rightarrow> exception + fast_params" where
  "FastLogicle_initialize p bins =
     (if bins + 1 < 0 then Inl BadArrayNewLength
      else case lookup_loop p bins [0 .. bins] (replicate (nat (bins + 1)) 0) of
             Inl e \<Rightarrow> Inl e
           | Inr lookup \<Rightarrow> Inr (logicle_params.extend p \<lparr>p_lookup = lookup, p_bins = bins\<rparr>))"

text \<open>The constructor \<open>FastLogicle (T, W, M, A, bins)\<close>: the base class first, then the table.\<close>

definition FastLogicle :: "real \<Rightarrow> real \<Rightarrow> real \<Rightarrow> real \<Rightarrow> int \<Rightarrow> exception + fast_params" where
  "FastLogicle T W M A bins =
     (case Logicle_initialize T W M A bins of
        Inl e \<Rightarrow> Inl e
      | Inr p \<Rightarrow> FastLogicle_initialize p bins)"

text \<open>
  \<open>FastLogicle::intScale\<close>: the binary search. \<open>lo + hi\<close> is a sum of two \<open>int\<close>
  variables; \<open>>> 1\<close> halves it, rounding down. From \<open>bins = 2^30\<close> on the sum can
  exceed \<open>INT_MAX\<close>.
\<close>

function intScale_loop :: "fast_params \<Rightarrow> real \<Rightarrow> int \<Rightarrow> int \<Rightarrow> exception + int" where
  "intScale_loop p value lo hi =
     (if lo \<le> hi then
        if lo + hi < INT_MIN \<or> INT_MAX < lo + hi then Inl IntegerOverflow
        else
          let mid = (lo + hi) div 2;
              key = p_lookup p ! nat mid
          in if value < key then intScale_loop p value lo (mid - 1)
             else if value > key then intScale_loop p value (mid + 1) hi
             else if mid < p_bins p then Inr mid
             else Inl (IllegalArgument_double value)
      else if hi < 0 \<or> lo > p_bins p then Inl (IllegalArgument_double value)
      else Inr (lo - 1))"
  by pat_completeness auto
termination
  by (relation "measure (\<lambda>(p, value, lo, hi). nat (hi + 1 - lo))") auto

definition intScale :: "fast_params \<Rightarrow> real \<Rightarrow> exception + int" where
  "intScale p value = intScale_loop p value 0 (p_bins p)"

definition FastLogicle_scale :: "fast_params \<Rightarrow> real \<Rightarrow> exception + real" where
  "FastLogicle_scale p value =
     (case intScale p value of
        Inl e \<Rightarrow> Inl e
      | Inr index \<Rightarrow>
          let delta = (value - p_lookup p ! nat index)
                      / (p_lookup p ! nat (index + 1) - p_lookup p ! nat index)
          in Inr ((of_int index + delta) / of_int (p_bins p)))"

definition FastLogicle_inverse :: "fast_params \<Rightarrow> real \<Rightarrow> exception + real" where
  "FastLogicle_inverse p scale =
     (let x = scale * of_int (p_bins p);
          index = \<lfloor>x\<rfloor>
      in if index < 0 \<or> index \<ge> p_bins p then Inl (IllegalArgument_double scale)
         else let delta = x - of_int index
              in Inr ((1 - delta) * p_lookup p ! nat index + delta * p_lookup p ! nat (index + 1)))"

definition FastLogicle_inverse_int :: "fast_params \<Rightarrow> int \<Rightarrow> exception + real" where
  "FastLogicle_inverse_int p index =
     (if index < 0 \<or> index \<ge> p_bins p then Inl (IllegalArgument_int index)
      else Inr (p_lookup p ! nat index))"

subsection \<open>Iteration under a cap\<close>

text \<open>
  What a hard iteration cap means, written without a loop counter, for comparison
  with the loops of \<open>solve\<close> and \<open>scale\<close>: \<open>capped cap msg body s\<close> makes passes of
  \<open>body\<close> from \<open>s\<close>, ends with the value of the first pass that returns, and fails
  with \<open>DidNotConverge msg\<close> once \<open>cap\<close> passes have gone by without a return.
  \<open>passes cap body s\<close> is the number of passes it makes, and \<open>continues n body s\<close>
  says that each of the first \<open>n\<close> passes from \<open>s\<close> ends without a return.
\<close>

primrec capped :: "nat \<Rightarrow> string \<Rightarrow> ('s \<Rightarrow> ('r, 's) pass) \<Rightarrow> 's \<Rightarrow> exception + 'r" where
  "capped 0 msg body s = Inl (DidNotConverge msg)"
| "capped (Suc n) msg body s =
     (case body s of Return r \<Rightarrow> Inr r | Continue s' \<Rightarrow> capped n msg body s')"

primrec passes :: "nat \<Rightarrow> ('s \<Rightarrow> ('r, 's) pass) \<Rightarrow> 's \<Rightarrow> nat" where
  "passes 0 body s = 0"
| "passes (Suc n) body s =
     (case body s of Return r \<Rightarrow> 1 | Continue s' \<Rightarrow> Suc (passes n body s'))"

primrec continues :: "nat \<Rightarrow> ('s \<Rightarrow> ('r, 's) pass) \<Rightarrow> 's \<Rightarrow> bool" where
  "continues 0 body s = True"
| "continues (Suc n) body s =
     (case body s of Return r \<Rightarrow> False | Continue s' \<Rightarrow> continues n body s')"

subsection \<open>The accessors of logicle.h\<close>

definition Logicle_T :: "'z logicle_params_scheme \<Rightarrow> real" where
  "Logicle_T p = p_T p"

definition Logicle_W :: "'z logicle_params_scheme \<Rightarrow> real" where
  "Logicle_W p = p_W p"

definition Logicle_M :: "'z logicle_params_scheme \<Rightarrow> real" where
  "Logicle_M p = p_M p"

definition Logicle_A :: "'z logicle_params_scheme \<Rightarrow> real" where
  "Logicle_A p = p_A p"

definition FastLogicle_bins :: "fast_params \<Rightarrow> int" where
  "FastLogicle_bins p = p_bins p"

subsection \<open>Auxiliary definitions\<close>

text \<open>
  Names for parts of \<open>Logicle::initialize\<close>, used in the proofs only: the
  conjunction of the checks that let a construction pass, the position of zero after
  rounding to a bin boundary, the value of \<open>A\<close> after the bin adjustment, and the
  structure that is filled once \<open>solve\<close> has returned \<open>d\<close>. Lemma
  \<open>Logicle_initialize_valid\<close> shows that \<open>Logicle_initialize\<close> is composed of them.
\<close>

definition valid_parameters :: "real \<Rightarrow> real \<Rightarrow> real \<Rightarrow> real \<Rightarrow> bool" where
  "valid_parameters T W M A =
     (0 < T \<and> 0 \<le> W \<and> 0 < M \<and> 2 * W \<le> M \<and> - A \<le> W \<and> A + W \<le> M - W)"

definition bin_zero :: "real \<Rightarrow> real \<Rightarrow> real \<Rightarrow> int \<Rightarrow> real" where
  "bin_zero W M A bins = of_int \<lfloor>(W + A) / (M + A) * of_int bins + 1 / 2\<rfloor> / of_int bins"

definition adjusted_A :: "real \<Rightarrow> real \<Rightarrow> real \<Rightarrow> int \<Rightarrow> real" where
  "adjusted_A W M A bins =
     (if bins > 0 then (M * bin_zero W M A bins - W) / (1 - bin_zero W M A bins) else A)"

definition derived_params :: "real \<Rightarrow> real \<Rightarrow> real \<Rightarrow> real \<Rightarrow> real \<Rightarrow> logicle_params" where
  "derived_params T W M A d =
     (let w = W / (M + A);
          x2 = A / (M + A);
          x1 = x2 + w;
          x0 = x2 + 2 * w;
          b = (M + A) * LN_10;
          c_a = exp (x0 * (b + d));
          mf_a = exp (b * x1) - c_a / exp (d * x1);
          a = T / ((exp b - mf_a) - c_a / exp d);
          c = c_a * a;
          f = - mf_a * a;
          xTaylor = x1 + w / 4;
          posCoef = a * exp (b * x1);
          negCoef = - c / exp (d * x1);
          taylor = (taylor_loop b d posCoef negCoef)[1 := 0]
      in \<lparr>p_T = T, p_W = W, p_M = M, p_A = A,
           p_a = a, p_b = b, p_c = c, p_d = d, p_f = f,
           p_w = w, p_x0 = x0, p_x1 = x1, p_x2 = x2,
           p_xTaylor = xTaylor, p_taylor = taylor\<rparr>)"

text \<open>
  The two loops of \<open>axisLabels\<close> with plain list updates, and the vector they leave
  behind as a function of the two counts and of the first positive label: what the
  loops of the model compute when every store is inside the vector (lemmas
  \<open>mirror_loop_fill\<close>, \<open>positive_loop_fill\<close>). Then the numbers of zero, negative and
  positive entries of a label sequence.
\<close>

function mirror_fill :: "int \<Rightarrow> int \<Rightarrow> real list \<times> real \<Rightarrow> real list \<times> real" where
  "mirror_fill nn i (label, x) =
     (if i \<le> nn then
        mirror_fill nn (i + 1) (label[nat (nn - i) := - x, nat (nn + i) := x], x * 10)
      else (label, x))"
  by pat_completeness auto
termination
  by (relation "measure (\<lambda>(nn, i, vars). nat (nn + 1 - i))") auto

function positive_fill :: "int \<Rightarrow> int \<Rightarrow> int \<Rightarrow> real list \<times> real \<Rightarrow> real list \<times> real" where
  "positive_fill nn np i (label, x) =
     (if i \<le> np then
        positive_fill nn np (i + 1) (label[nat (nn + i) := x], x * 10)
      else (label, x))"
  by pat_completeness auto
termination
  by (relation "measure (\<lambda>(nn, np, i, vars). nat (np + 1 - i))") auto





subsection \<open>Example instances\<close>

text \<open>
  The transform \<open>Logicle (10, 0, 1, 0)\<close>: with \<open>W = 0\<close>, \<open>solve\<close> returns \<open>d = b\<close>
  at once, and \<open>b = ln 10\<close>, \<open>a = c = 100 / 99\<close>, \<open>f = 0\<close>, \<open>x1 = 0\<close>. Over it,
  the tables of \<open>FastLogicle (10, 0, 1, 0, 1)\<close> and of \<open>FastLogicle (10, 0, 1, 0, 0)\<close>.
\<close>

definition example_params :: logicle_params where
  "example_params = \<lparr>p_T = 10, p_W = 0, p_M = 1, p_A = 0,
     p_a = 100 / 99, p_b = ln 10, p_c = 100 / 99, p_d = ln 10, p_f = 0,
     p_w = 0, p_x0 = 0, p_x1 = 0, p_x2 = 0, p_xTaylor = 0,
     p_taylor = (taylor_loop (ln 10) (ln 10) (100 / 99) (- (100 / 99)))[1 := 0]\<rparr>"

text \<open>
  The parameters of \<open>FastLogicle (10, 0, 1, 1, 3)\<close>: the position of zero, \<open>1 / 2\<close>, is
  rounded to the bin boundary \<open>2 / 3\<close>, and \<open>A\<close> is adjusted from \<open>1\<close> to \<open>2\<close>.
\<close>

definition example_params3 :: logicle_params where
  "example_params3 = \<lparr>p_T = 10, p_W = 0, p_M = 1, p_A = 2,
     p_a = 1 / 99, p_b = 3 * ln 10, p_c = 10000 / 99, p_d = 3 * ln 10, p_f = 0,
     p_w = 0, p_x0 = 2 / 3, p_x1 = 2 / 3, p_x2 = 2 / 3, p_xTaylor = 2 / 3,
     p_taylor = (taylor_loop (3 * ln 10) (3 * ln 10) (100 / 99) (- (100 / 99)))[1 := 0]\<rparr>"

definition example_fast :: fast_params where
  "example_fast = logicle_params.extend example_params \<lparr>p_lookup = [0, 10], p_bins = 1\<rparr>"

definition example_fast0 :: fast_params where
  "example_fast0 = logicle_params.extend example_params \<lparr>p_lookup = [0], p_bins = 0\<rparr>"

section \<open>Properties\<close>

subsection \<open>Facts about the construction\<close>

declare solve_loop.simps [simp del] scale_loop.simps [simp del] intScale_loop.simps [simp del]
  mirror_loop.simps [simp del] positive_loop.simps [simp del]
  mirror_fill.simps [simp del] positive_fill.simps [simp del]

lemma Logicle_initialize_valid:
  assumes "valid_parameters T W M A"
  shows "Logicle_initialize T W M A bins =
     (if 0 < bins \<and> bin_zero W M A bins = 1 then Inl NonFinite
      else case solve ((M + adjusted_A W M A bins) * LN_10)
                  (W / (M + adjusted_A W M A bins)) of
             Inl e \<Rightarrow> Inl e
           | Inr d \<Rightarrow> Inr (derived_params T W M (adjusted_A W M A bins) d))"
  using assms
  unfolding valid_parameters_def Logicle_initialize_def adjusted_A_def bin_zero_def
    derived_params_def Let_def
  by (simp add: not_le not_less split: sum.splits)

lemma Logicle_initialize_invalid:
  assumes "\<not> valid_parameters T W M A"
  shows "\<exists>msg \<in> {''T is not positive'', ''W is negative'', ''M is not positive'',
                  ''W is too large'', ''A is too large''}.
           Logicle_initialize T W M A bins = Inl (IllegalParameter msg)"
  using assms unfolding valid_parameters_def Logicle_initialize_def
  by (simp add: not_le not_less) linarith

lemma solve_loop_exception:
  "solve_loop w tolerance f_b i vars = Inl e \<Longrightarrow>
     e = DidNotConverge ''exceeded maximum iterations in solve()''"
proof (induction w tolerance f_b i vars rule: solve_loop.induct)
  case (1 w tolerance f_b i vars)
  show ?case
  proof (cases "i < 20")
    case True
    with "1.prems" "1.IH" show ?thesis
      by (cases "solve_body w tolerance f_b vars")
        (simp_all add: solve_loop.simps[of w tolerance f_b i])
  next
    case False
    with "1.prems" show ?thesis by (simp add: solve_loop.simps[of w tolerance f_b i])
  qed
qed

lemma solve_exception:
  "solve b w = Inl e \<Longrightarrow> e = DidNotConverge ''exceeded maximum iterations in solve()''"
  by (auto simp add: solve_def Let_def split: if_splits dest: solve_loop_exception)

lemma Logicle_initialize_Inr:
  assumes "Logicle_initialize T W M A bins = Inr p"
  shows "valid_parameters T W M A"
    and "\<exists>d. p = derived_params T W M (adjusted_A W M A bins) d"
    and "\<not> (0 < bins \<and> bin_zero W M A bins = 1)"
proof -
  show v: "valid_parameters T W M A"
  proof (rule ccontr)
    assume "\<not> valid_parameters T W M A"
    from Logicle_initialize_invalid[OF this, of bins] assms show False by auto
  qed
  from assms show "\<exists>d. p = derived_params T W M (adjusted_A W M A bins) d"
    by (auto simp add: Logicle_initialize_valid[OF v] split: sum.splits if_splits)
  from assms show "\<not> (0 < bins \<and> bin_zero W M A bins = 1)"
    by (auto simp add: Logicle_initialize_valid[OF v] split: sum.splits if_splits)
qed

lemma taylor_fold_length:
  "length (snd (snd (fold (taylor_body b d) ns (posCoef, negCoef, taylor)))) = length taylor"
  by (induction ns arbitrary: posCoef negCoef taylor) (simp_all add: taylor_body_def Let_def)

lemma taylor_loop_length: "length (taylor_loop b d posCoef negCoef) = TAYLOR_LENGTH"
  by (simp add: taylor_loop_def taylor_fold_length)

lemma derived_params_fields:
  "p_T (derived_params T W M A d) = T"
  "p_W (derived_params T W M A d) = W"
  "p_M (derived_params T W M A d) = M"
  "p_A (derived_params T W M A d) = A"
  "length (p_taylor (derived_params T W M A d)) = TAYLOR_LENGTH"
  by (simp_all add: derived_params_def Let_def taylor_loop_length)

lemma Logicle_inverse_returns: "\<exists>v. Logicle_inverse p s = Inr v"
  by (cases "s < p_x1 p") (simp_all add: Logicle_inverse_def Let_def)

subsection \<open>The example instances\<close>

lemma example_initialize: "Logicle_initialize 10 0 1 0 0 = Inr example_params"
  by (simp add: Logicle_initialize_def solve_def LN_10_def example_params_def Let_def)

lemma example_initialize_bins: "Logicle_initialize 10 0 1 0 1 = Inr example_params"
  by (simp add: Logicle_initialize_def solve_def LN_10_def example_params_def Let_def)

lemma example_initialize_adjusted: "Logicle_initialize 10 0 1 (3 / 10) 1 = Inr example_params"
  by (simp add: Logicle_initialize_def solve_def LN_10_def example_params_def Let_def)

lemma example_initialize_large: "Logicle_initialize 10 0 1 0 (2 ^ 30) = Inr example_params"
  by (simp add: Logicle_initialize_def solve_def LN_10_def example_params_def Let_def)

lemma exp_ln_10:
  "exp (ln 10 * 2) = (100::real)" "exp (ln 10 * 3) = (1000::real)"
  "exp (ln 10 * 4) = (10000::real)"
  "exp (2 * ln 10) = (100::real)" "exp (3 * ln 10) = (1000::real)"
  "exp (4 * ln 10) = (10000::real)"
  using exp_of_nat_mult[of 2 "ln (10::real)"] exp_of_nat_mult[of 3 "ln (10::real)"]
    exp_of_nat_mult[of 4 "ln (10::real)"]
  by (simp_all add: mult.commute)

lemma example3_initialize: "Logicle_initialize 10 0 1 1 3 = Inr example_params3"
  by (simp add: Logicle_initialize_def solve_def LN_10_def example_params3_def Let_def
      exp_ln_10)

lemma example3_inverse: "Logicle_inverse example_params3 0 = Inr (- 101)"
  by (simp add: Logicle_inverse_def example_params3_def Let_def exp_ln_10)

lemma example_fields:
  "p_T example_params = 10" "p_W example_params = 0" "p_M example_params = 1"
  "p_A example_params = 0" "p_x1 example_params = 0"
  by (simp_all add: example_params_def)

lemma example_inverse:
  "Logicle_inverse example_params 0 = Inr 0" "Logicle_inverse example_params 1 = Inr 10"
  by (simp_all add: Logicle_inverse_def example_params_def Let_def)

lemma example_fast_fields:
  "p_bins example_fast = 1" "p_lookup example_fast = [0, 10]"
  "p_bins example_fast0 = 0" "p_lookup example_fast0 = [0]"
  by (simp_all add: example_fast_def example_fast0_def logicle_params.defs)

lemma example_FastLogicle: "FastLogicle 10 0 1 0 1 = Inr example_fast"
  by (simp add: FastLogicle_def example_initialize_bins FastLogicle_initialize_def
      upto.simps example_inverse example_fast_def eval_nat_numeral)

lemma example_FastLogicle0: "FastLogicle 10 0 1 0 0 = Inr example_fast0"
  by (simp add: FastLogicle_def example_initialize FastLogicle_initialize_def
      upto.simps example_inverse example_fast0_def eval_nat_numeral)

subsection \<open>The transform engine\<close>

text \<open>
  C1. \<open>Logicle::scale\<close> applied to the value \<open>0\<close> returns exactly the breakpoint
  \<open>x1\<close> stored in the parameters: the first statement of the function returns
  \<open>p->x1\<close>, before any reflection and before the Halley loop. This holds for every
  parameter structure, in particular for every validly constructed one.
\<close>

theorem scale_zero_is_x1: "Logicle_scale p 0 = Inr (p_x1 p)"
  by (simp add: Logicle_scale_def)

text \<open>
  The reflection \<open>inverse (2 * x1 - s) = - inverse (s)\<close> is not among the statements.
  In the source both sides are \<open>double\<close> values, and whether they are equal is decided
  by rounding: for \<open>s\<close> above \<open>x1\<close> the left side evaluates the biexponential at
  \<open>2 * x1 - (2 * x1 - s)\<close>, which after two rounded subtractions need not be \<open>s\<close>
  again, and at \<open>s = x1\<close> the identity asks for \<open>inverse (x1) = 0\<close>, which holds for
  the computed \<open>a\<close>, \<open>c\<close> and \<open>f\<close> only up to rounding. Over the real numbers both
  are identities of algebra, so a proof in this model would say nothing about the code.
\<close>

text \<open>
  C3. For every validly constructed transform, \<open>Logicle::inverse\<close> is total: for every
  position it returns a value and raises no exception. It evaluates the Taylor
  polynomial or the closed exponential expression, and the polynomial reads the
  entries \<open>0\<close> and \<open>2 .. TAYLOR_LENGTH - 1\<close> of a coefficient array that the
  construction has given \<open>TAYLOR_LENGTH\<close> entries.
\<close>

theorem inverse_total:
  assumes "Logicle_initialize T W M A bins = Inr p"
  shows "length (p_taylor p) = TAYLOR_LENGTH \<and> (\<exists>v. Logicle_inverse p s = Inr v)"
proof -
  from Logicle_initialize_Inr(2)[OF assms] obtain d
    where p: "p = derived_params T W M (adjusted_A W M A bins) d" by blast
  show ?thesis
    unfolding p by (simp add: derived_params_fields Logicle_inverse_def Let_def)
qed

theorem inverse_total_witness:
  "Logicle_initialize 10 0 1 0 0 = Inr example_params
   \<and> length (p_taylor example_params) = TAYLOR_LENGTH
   \<and> (\<exists>v. Logicle_inverse example_params (1 / 2) = Inr v)"
  using inverse_total[OF example_initialize, of "1 / 2"] example_initialize by simp

text \<open>
  C4. \<open>Logicle::initialize\<close> fails with \<open>IllegalParameter\<close> exactly when the inputs
  violate one of \<open>T > 0\<close>, \<open>W \<ge> 0\<close>, \<open>M > 0\<close>, \<open>2 W \<le> M\<close>, \<open>- A \<le> W\<close>,
  \<open>A + W \<le> M - W\<close>, and the exception then carries one of the five messages of the
  source. The result of a failed construction is the exception alone: it holds no
  parameter structure.
\<close>

theorem initialize_IllegalParameter:
  "((\<exists>msg. Logicle_initialize T W M A bins = Inl (IllegalParameter msg))
      = (\<not> (0 < T \<and> 0 \<le> W \<and> 0 < M \<and> 2 * W \<le> M \<and> - A \<le> W \<and> A + W \<le> M - W)))
   \<and> (\<forall>msg. Logicle_initialize T W M A bins = Inl (IllegalParameter msg) \<longrightarrow>
          msg \<in> {''T is not positive'', ''W is negative'', ''M is not positive'',
                 ''W is too large'', ''A is too large''})"
proof (cases "valid_parameters T W M A")
  case True
  have "Logicle_initialize T W M A bins \<noteq> Inl (IllegalParameter msg)" for msg
    using solve_exception
    by (auto simp add: Logicle_initialize_valid[OF True] split: sum.splits if_splits)
  with True show ?thesis by (simp add: valid_parameters_def)
next
  case False
  from Logicle_initialize_invalid[OF False, of bins] False show ?thesis
    by (auto simp add: valid_parameters_def)
qed

theorem initialize_IllegalParameter_witness:
  "Logicle_initialize 0 0 1 0 0 = Inl (IllegalParameter ''T is not positive'')
   \<and> ''T is not positive'' \<in> {''T is not positive'', ''W is negative'', ''M is not positive'',
                 ''W is too large'', ''A is too large''}
   \<and> \<not> (\<exists>msg. Logicle_initialize 10 0 1 0 0 = Inl (IllegalParameter msg))"
  using initialize_IllegalParameter[of 0 0 1 0 0] initialize_IllegalParameter[of 10 0 1 0 0]
  by (simp add: Logicle_initialize_def)

text \<open>
  C10. After a successful construction the accessors \<open>T()\<close>, \<open>W()\<close> and \<open>M()\<close>
  return the constructor arguments. With \<open>bins > 0\<close> the accessor \<open>A()\<close> returns the
  bin-adjusted value \<open>(M * zero - W) / (1 - zero)\<close>, where \<open>zero\<close> is
  \<open>(W + A) / (M + A) * bins\<close> rounded to the nearest integer (\<open>floor (x + .5)\<close>) and
  divided by \<open>bins\<close>; with \<open>bins = 0\<close> (and with any \<open>bins\<close> that is not positive) it
  returns the argument \<open>A\<close>. The adjusted value can differ from the argument:
  \<open>FastLogicle (10, 0, 1, 0.3, 1)\<close> stores \<open>A = 0\<close>.
\<close>

theorem accessors_after_initialize:
  "(Logicle_initialize T W M A bins = Inr p \<longrightarrow>
      Logicle_T p = T \<and> Logicle_W p = W \<and> Logicle_M p = M
      \<and> (0 < bins \<longrightarrow>
           (let zero = of_int (round ((W + A) / (M + A) * of_int bins)) / of_int bins
            in Logicle_A p = (M * zero - W) / (1 - zero)))
      \<and> (bins \<le> 0 \<longrightarrow> Logicle_A p = A))
   \<and> (\<exists>A' p'. Logicle_initialize 10 0 1 A' 1 = Inr p' \<and> Logicle_A p' \<noteq> A')"
proof (intro conjI impI)
  assume init: "Logicle_initialize T W M A bins = Inr p"
  from Logicle_initialize_Inr(2)[OF init] obtain d
    where p: "p = derived_params T W M (adjusted_A W M A bins) d" by blast
  show "Logicle_T p = T" "Logicle_W p = W" "Logicle_M p = M"
    unfolding p Logicle_T_def Logicle_W_def Logicle_M_def
    by (simp_all add: derived_params_fields)
  show "let zero = of_int (round ((W + A) / (M + A) * of_int bins)) / of_int bins
        in Logicle_A p = (M * zero - W) / (1 - zero)" if "0 < bins"
    unfolding p Logicle_A_def using that
    by (simp add: derived_params_fields adjusted_A_def bin_zero_def round_def Let_def)
  show "Logicle_A p = A" if "bins \<le> 0"
    unfolding p Logicle_A_def using that
    by (simp add: derived_params_fields adjusted_A_def)
next
  have "Logicle_A example_params \<noteq> 3 / 10"
    by (simp add: Logicle_A_def example_fields)
  with example_initialize_adjusted
  show "\<exists>A' p'. Logicle_initialize 10 0 1 A' 1 = Inr p' \<and> Logicle_A p' \<noteq> A'" by blast
qed

theorem accessors_after_initialize_witness:
  "Logicle_initialize 10 0 1 (3 / 10) 1 = Inr example_params
   \<and> Logicle_T example_params = 10 \<and> Logicle_W example_params = 0
   \<and> Logicle_M example_params = 1
   \<and> Logicle_A example_params = 0 \<and> Logicle_A example_params \<noteq> 3 / 10"
  using accessors_after_initialize[of 10 0 1 "3 / 10" 1 example_params]
    example_initialize_adjusted
  by (simp add: Logicle_A_def example_fields)

subsection \<open>The iteration caps\<close>

lemma nat_cap_Suc: "i < c \<Longrightarrow> nat (c - i) = Suc (nat (c - (i + 1)))" for i c :: int
  by simp

text \<open>
  A loop that counts \<open>i\<close> up to \<open>20\<close>, or to \<open>10\<close>, is an iteration under the cap
  that is left when the loop is entered at \<open>i\<close>.
\<close>

lemma solve_loop_capped:
  "i \<le> 20 \<Longrightarrow>
   solve_loop w tolerance f_b i vars
     = capped (nat (20 - i)) ''exceeded maximum iterations in solve()''
         (solve_body w tolerance f_b) vars"
proof (induction w tolerance f_b i vars rule: solve_loop.induct)
  case (1 w tolerance f_b i vars)
  show ?case
  proof (cases "i < 20")
    case True
    show ?thesis
    proof (cases "solve_body w tolerance f_b vars")
      case (Return r)
      with True show ?thesis
        by (simp add: solve_loop.simps[of w tolerance f_b i] nat_cap_Suc)
    next
      case (Continue vars')
      with True "1.IH"[OF True Continue] show ?thesis
        by (simp add: solve_loop.simps[of w tolerance f_b i] nat_cap_Suc)
    qed
  next
    case False
    with "1.prems" have "i = 20" by simp
    then show ?thesis by (simp add: solve_loop.simps[of w tolerance f_b 20])
  qed
qed

lemma scale_loop_capped:
  "i \<le> 10 \<Longrightarrow>
   scale_loop p value negative tolerance i x
     = capped (nat (10 - i)) ''scale() didn't converge''
         (scale_body p value negative tolerance) x"
proof (induction p "value" negative tolerance i x rule: scale_loop.induct)
  case (1 p "value" negative tolerance i x)
  show ?case
  proof (cases "i < 10")
    case True
    show ?thesis
    proof (cases "scale_body p value negative tolerance x")
      case (Return r)
      with True show ?thesis
        by (simp add: scale_loop.simps[of p "value" negative tolerance i] nat_cap_Suc)
    next
      case (Continue x')
      with True "1.IH"[OF True Continue] show ?thesis
        by (simp add: scale_loop.simps[of p "value" negative tolerance i] nat_cap_Suc)
    qed
  next
    case False
    with "1.prems" have "i = 10" by simp
    then show ?thesis by (simp add: scale_loop.simps[of p "value" negative tolerance 10])
  qed
qed

lemma passes_le: "passes n body s \<le> n"
proof (induction n arbitrary: s)
  case 0
  show ?case by simp
next
  case (Suc n)
  show ?case
  proof (cases "body s")
    case (Return r)
    then show ?thesis by simp
  next
    case (Continue s')
    with Suc[of s'] show ?thesis by simp
  qed
qed

lemma capped_exception:
  "(capped n msg body s = Inl e) = (e = DidNotConverge msg \<and> continues n body s)"
proof (induction n arbitrary: s)
  case 0
  show ?case by auto
next
  case (Suc n)
  show ?case
  proof (cases "body s")
    case (Return r)
    then show ?thesis by simp
  next
    case (Continue s')
    with Suc[of s'] show ?thesis by simp
  qed
qed

lemma solve_capped:
  "solve b w =
     (if w = 0 then Inr b
      else capped 19 ''exceeded maximum iterations in solve()''
             (solve_body w (2 * b * EPSILON) (- 2 * ln b + w * b))
             (b / 2, 0, b, b, 2 * ln (b / 2) + w * (b / 2) + (- 2 * ln b + w * b), None))"
  using solve_loop_capped[of 1 w "2 * b * EPSILON" "- 2 * ln b + w * b"
      "(b / 2, 0, b, b, 2 * ln (b / 2) + w * (b / 2) + (- 2 * ln b + w * b), None)"]
  by (simp add: solve_def Let_def)

lemma Logicle_scale_capped:
  "Logicle_scale p value =
     (if value = 0 then Inr (p_x1 p)
      else let negative = (value < 0);
               v = (if negative then - value else value);
               x = (if v < p_f p then p_x1 p + v / p_taylor p ! 0
                    else ln (v / p_a p) / p_b p);
               tolerance = (if x > 1 then 3 * x * EPSILON else 3 * EPSILON)
           in capped 10 ''scale() didn't converge'' (scale_body p v negative tolerance) x)"
  by (simp add: Logicle_scale_def Let_def scale_loop_capped[of 0])

text \<open>
  C8. The iterative solvers have hard iteration caps. \<open>Logicle::solve\<close> returns \<open>b\<close>
  at once when \<open>w = 0\<close>; otherwise it makes the bisection step, and then its loop,
  counting \<open>i\<close> from \<open>1\<close> while \<open>i < 20\<close>, is an iteration of the loop body under
  the cap \<open>19\<close>: it makes fewer than \<open>20\<close> passes. \<open>Logicle::scale\<close> returns \<open>x1\<close> at
  once for the value \<open>0\<close>; otherwise its loop, counting from \<open>0\<close> while \<open>i < 10\<close>, is
  an iteration of the Halley step under the cap \<open>10\<close>: it makes at most \<open>10\<close> passes.
  Each of the two functions raises \<open>DidNotConverge\<close> exactly when it has entered its
  loop and every pass up to the cap has gone by without meeting one of the
  convergence criteria that make the body return, and neither raises anything else.
\<close>

theorem solver_iteration_caps:
  "(let body = solve_body w (2 * b * EPSILON) (- 2 * ln b + w * b);
        start = (b / 2, 0, b, b, 2 * ln (b / 2) + w * (b / 2) + (- 2 * ln b + w * b), None)
    in solve b w =
         (if w = 0 then Inr b
          else capped 19 ''exceeded maximum iterations in solve()'' body start)
       \<and> passes 19 body start < 20
       \<and> (solve b w = Inl e)
           = (e = DidNotConverge ''exceeded maximum iterations in solve()''
              \<and> w \<noteq> 0 \<and> continues 19 body start))
   \<and> (let negative = (value < 0);
           v = (if negative then - value else value);
           x = (if v < p_f p then p_x1 p + v / p_taylor p ! 0 else ln (v / p_a p) / p_b p);
           tolerance = (if x > 1 then 3 * x * EPSILON else 3 * EPSILON);
           body = scale_body p v negative tolerance
       in Logicle_scale p value =
            (if value = 0 then Inr (p_x1 p)
             else capped 10 ''scale() didn't converge'' body x)
          \<and> passes 10 body x \<le> 10
          \<and> (Logicle_scale p value = Inl e')
              = (e' = DidNotConverge ''scale() didn't converge''
                 \<and> value \<noteq> 0 \<and> continues 10 body x))"
proof -
  define body where "body = solve_body w (2 * b * EPSILON) (- 2 * ln b + w * b)"
  define start :: solve_vars
    where "start = (b / 2, 0, b, b, 2 * ln (b / 2) + w * (b / 2) + (- 2 * ln b + w * b), None)"
  have s1: "solve b w =
      (if w = 0 then Inr b
       else capped 19 ''exceeded maximum iterations in solve()'' body start)"
    unfolding body_def start_def by (rule solve_capped)
  have s2: "passes 19 body start < 20"
    using passes_le[of 19 body start] by simp
  have s3: "(solve b w = Inl e)
      = (e = DidNotConverge ''exceeded maximum iterations in solve()''
         \<and> w \<noteq> 0 \<and> continues 19 body start)"
  proof (cases "w = 0")
    case True
    with s1 show ?thesis by simp
  next
    case False
    with s1 capped_exception[of 19 "''exceeded maximum iterations in solve()''" body start e]
    show ?thesis by simp
  qed
  define negative where "negative = (value < 0)"
  define v where "v = (if negative then - value else value)"
  define x where "x = (if v < p_f p then p_x1 p + v / p_taylor p ! 0 else ln (v / p_a p) / p_b p)"
  define tolerance where "tolerance = (if x > 1 then 3 * x * EPSILON else 3 * EPSILON)"
  define body' where "body' = scale_body p v negative tolerance"
  have t1: "Logicle_scale p value =
      (if value = 0 then Inr (p_x1 p)
       else capped 10 ''scale() didn't converge'' body' x)"
    unfolding body'_def tolerance_def x_def v_def negative_def
    using Logicle_scale_capped[of p "value"] by (simp add: Let_def)
  have t2: "passes 10 body' x \<le> 10"
    by (rule passes_le)
  have t3: "(Logicle_scale p value = Inl e')
      = (e' = DidNotConverge ''scale() didn't converge''
         \<and> value \<noteq> 0 \<and> continues 10 body' x)"
  proof (cases "value = 0")
    case True
    with t1 show ?thesis by simp
  next
    case False
    with t1 capped_exception[of 10 "''scale() didn't converge''" body' x e']
    show ?thesis by simp
  qed
  from s1 s2 s3 have "solve b w =
         (if w = 0 then Inr b
          else capped 19 ''exceeded maximum iterations in solve()'' body start)
       \<and> passes 19 body start < 20
       \<and> (solve b w = Inl e)
           = (e = DidNotConverge ''exceeded maximum iterations in solve()''
              \<and> w \<noteq> 0 \<and> continues 19 body start)"
    by blast
  moreover from t1 t2 t3 have "Logicle_scale p value =
            (if value = 0 then Inr (p_x1 p)
             else capped 10 ''scale() didn't converge'' body' x)
          \<and> passes 10 body' x \<le> 10
          \<and> (Logicle_scale p value = Inl e')
              = (e' = DidNotConverge ''scale() didn't converge''
                 \<and> value \<noteq> 0 \<and> continues 10 body' x)"
    by blast
  ultimately show ?thesis
    unfolding body_def start_def body'_def tolerance_def x_def v_def negative_def Let_def
    by blast
qed

subsection \<open>The lookup accelerator\<close>

text \<open>
  The table that \<open>FastLogicle::initialize\<close> builds: \<open>bins + 1\<close> entries, the entry at
  \<open>i\<close> being \<open>Logicle::inverse (i / bins)\<close>.
\<close>

lemma lookup_loop_table:
  "distinct js \<Longrightarrow> (\<forall>i \<in> set js. 0 \<le> i \<and> nat i < length l) \<Longrightarrow>
   \<exists>l'. lookup_loop p bins js l = Inr l' \<and> length l' = length l
     \<and> (\<forall>i \<in> set js. Logicle_inverse p (of_int i / of_int bins) = Inr (l' ! nat i))
     \<and> (\<forall>k < length l. int k \<notin> set js \<longrightarrow> l' ! k = l ! k)"
proof (induction js arbitrary: l)
  case Nil
  then show ?case by simp
next
  case (Cons i js)
  from Logicle_inverse_returns[of p "of_int i / of_int bins"] obtain v
    where v: "Logicle_inverse p (of_int i / of_int bins) = Inr v" by blast
  let ?l = "l[nat i := v]"
  from Cons.prems have i: "0 \<le> i" "nat i < length l" "i \<notin> set js" by simp_all
  from Cons.prems have "distinct js" "\<forall>j \<in> set js. 0 \<le> j \<and> nat j < length ?l" by simp_all
  from Cons.IH[OF this] obtain l'
    where l': "lookup_loop p bins js ?l = Inr l'" "length l' = length ?l"
      "\<forall>j \<in> set js. Logicle_inverse p (of_int j / of_int bins) = Inr (l' ! nat j)"
      "\<forall>k < length ?l. int k \<notin> set js \<longrightarrow> l' ! k = ?l ! k"
    by blast
  have res: "lookup_loop p bins (i # js) l = Inr l'" by (simp add: v l'(1))
  have at_i: "l' ! nat i = v"
  proof -
    from i have "int (nat i) \<notin> set js" by simp
    with l'(4) i have "l' ! nat i = ?l ! nat i" by simp
    with i show ?thesis by simp
  qed
  have keep: "l' ! k = l ! k" if "k < length l" "int k \<notin> set (i # js)" for k
  proof -
    from that i have "k \<noteq> nat i" by auto
    moreover from that l'(4) have "l' ! k = ?l ! k" by simp
    ultimately show ?thesis by simp
  qed
  from res l'(2) l'(3) at_i v keep show ?case by auto
qed

lemma FastLogicle_initialize_table:
  assumes "0 \<le> bins"
  shows "\<exists>lookup. FastLogicle_initialize p bins
             = Inr (logicle_params.extend p \<lparr>p_lookup = lookup, p_bins = bins\<rparr>)
     \<and> length lookup = nat (bins + 1)
     \<and> (\<forall>i. 0 \<le> i \<and> i \<le> bins \<longrightarrow>
            Logicle_inverse p (of_int i / of_int bins) = Inr (lookup ! nat i))"
proof -
  have "distinct [0 .. bins]" by simp
  moreover have "\<forall>i \<in> set [0 .. bins].
      0 \<le> i \<and> nat i < length (replicate (nat (bins + 1)) (0::real))"
    by auto
  ultimately obtain l'
    where l': "lookup_loop p bins [0 .. bins] (replicate (nat (bins + 1)) 0) = Inr l'"
      "length l' = length (replicate (nat (bins + 1)) (0::real))"
      "\<forall>i \<in> set [0 .. bins]. Logicle_inverse p (of_int i / of_int bins) = Inr (l' ! nat i)"
    using lookup_loop_table[of "[0 .. bins]" "replicate (nat (bins + 1)) 0" p bins] by blast
  from assms l' show ?thesis
    by (intro exI[of _ l']) (simp add: FastLogicle_initialize_def)
qed

lemma FastLogicle_table:
  assumes "FastLogicle T W M A bins = Inr p" and "0 \<le> bins"
  shows "p_bins p = bins \<and> length (p_lookup p) = nat (p_bins p) + 1
     \<and> (\<forall>i. 0 \<le> i \<and> i \<le> bins \<longrightarrow>
            Logicle_inverse p (of_int i / of_int bins) = Inr (p_lookup p ! nat i))"
proof -
  from assms(1) obtain q where q: "Logicle_initialize T W M A bins = Inr q"
    and init: "FastLogicle_initialize q bins = Inr p"
    by (auto simp add: FastLogicle_def split: sum.splits)
  from FastLogicle_initialize_table[OF assms(2), of q] init obtain lookup
    where p: "p = logicle_params.extend q \<lparr>p_lookup = lookup, p_bins = bins\<rparr>"
      and len: "length lookup = nat (bins + 1)"
      and entries: "\<forall>i. 0 \<le> i \<and> i \<le> bins \<longrightarrow>
            Logicle_inverse q (of_int i / of_int bins) = Inr (lookup ! nat i)"
    by auto
  have same: "Logicle_inverse p s = Logicle_inverse q s" for s
    by (simp add: p Logicle_inverse_def seriesBiexponential_def logicle_params.defs Let_def)
  from len entries assms(2) show ?thesis
    by (simp add: same) (simp add: p logicle_params.defs nat_add_distrib)
qed

text \<open>
  C5. A \<open>FastLogicle\<close> constructed with \<open>bins > 0\<close> is to hold a table of \<open>bins + 1\<close>
  entries, \<open>lookup[i]\<close> being the engine's \<open>inverse (i / bins)\<close>, strictly increasing.
  The source does not build such a table for \<open>FastLogicle (10, 0, 1, 1, 1)\<close>. The
  parameters are valid; the position of zero, \<open>(W + A) / (M + A) = 1 / 2\<close>, is rounded
  to the only bin boundary above it, \<open>zero = 1\<close>, and \<open>Logicle::initialize\<close> divides by
  \<open>1 - zero = 0\<close>. In the source \<open>A\<close> becomes \<open>+inf\<close>, \<open>x2 = A / (M + A)\<close> is NaN, so
  is every parameter derived from it, and both table entries are NaN: the table is
  not increasing. The model stops at the division.
\<close>

theorem one_bin_division_by_zero:
  "valid_parameters 10 0 1 1
   \<and> bin_zero 0 1 1 1 = 1
   \<and> Logicle_initialize 10 0 1 1 1 = Inl NonFinite
   \<and> FastLogicle 10 0 1 1 1 = Inl NonFinite"
  by (simp add: FastLogicle_def Logicle_initialize_def valid_parameters_def bin_zero_def)

text \<open>
  The binary search on a table as the data model of \<open>FastLogicle\<close> describes it:
  \<open>bins + 1\<close> entries, strictly increasing, with \<open>bins\<close> below \<open>2^30\<close> so that
  \<open>lo + hi\<close> stays an \<open>int\<close>.
\<close>

lemma lookup_strict_mono:
  assumes "sorted_wrt (<) (xs :: real list)" "length xs = nat bins + 1" "0 \<le> j" "j < k" "k \<le> bins"
  shows "xs ! nat j < xs ! nat k"
  using assms sorted_wrt_nth_less[of "(<)" xs "nat j" "nat k"] by auto

lemma intScale_loop_correct:
  "length (p_lookup p) = nat (p_bins p) + 1 \<Longrightarrow> sorted_wrt (<) (p_lookup p) \<Longrightarrow>
     0 \<le> p_bins p \<Longrightarrow> p_bins p < 2 ^ 30 \<Longrightarrow>
     0 \<le> lo \<Longrightarrow> hi \<le> p_bins p \<Longrightarrow> lo \<le> hi + 1 \<Longrightarrow>
     (\<forall>k. 0 \<le> k \<and> k < lo \<longrightarrow> p_lookup p ! nat k < value) \<Longrightarrow>
     (\<forall>k. hi < k \<and> k \<le> p_bins p \<longrightarrow> value < p_lookup p ! nat k) \<Longrightarrow>
     (\<exists>i. intScale_loop p value lo hi = Inr i \<and> 0 \<le> i \<and> i < p_bins p
          \<and> p_lookup p ! nat i \<le> value \<and> value < p_lookup p ! nat (i + 1))
     \<or> (intScale_loop p value lo hi = Inl (IllegalArgument_double value)
          \<and> (value < p_lookup p ! 0 \<or> p_lookup p ! nat (p_bins p) \<le> value))"
proof (induction p "value" lo hi rule: intScale_loop.induct)
  case (1 p "value" lo hi)
  note len = "1.prems"(1) and srt = "1.prems"(2) and bins0 = "1.prems"(3)
    and binsmax = "1.prems"(4) and inv_lo = "1.prems"(8) and inv_hi = "1.prems"(9)
  define mid where "mid = (lo + hi) div 2"
  define key where "key = p_lookup p ! nat mid"
  show ?case
  proof (cases "lo \<le> hi")
    case True
    then have mid: "lo \<le> mid" "mid \<le> hi" by (simp_all add: mid_def)
    with "1.prems" have mid0: "0 \<le> mid" "mid \<le> p_bins p" by simp_all
    from True "1.prems"(5) "1.prems"(6) binsmax
    have novf: "\<not> (lo + hi < INT_MIN \<or> INT_MAX < lo + hi)"
      by (simp add: INT_MIN_def INT_MAX_def)
    consider (lt) "value < key" | (gt) "key < value" | (eq) "value = key" by linarith
    then show ?thesis
    proof cases
      case lt
      have upper: "\<forall>k. mid - 1 < k \<and> k \<le> p_bins p \<longrightarrow> value < p_lookup p ! nat k"
      proof (intro allI impI)
        fix k assume k: "mid - 1 < k \<and> k \<le> p_bins p"
        show "value < p_lookup p ! nat k"
        proof (cases "k = mid")
          case True
          with lt show ?thesis by (simp add: key_def)
        next
          case False
          with k mid0 len have "p_lookup p ! nat mid < p_lookup p ! nat k"
            by (intro lookup_strict_mono[OF srt len]) simp_all
          with lt show ?thesis by (simp add: key_def)
        qed
      qed
      have "intScale_loop p value lo hi = intScale_loop p value lo (mid - 1)"
        using True novf lt
        by (simp add: intScale_loop.simps[of p "value" lo hi] mid_def key_def Let_def)
      moreover have "(\<exists>i. intScale_loop p value lo (mid - 1) = Inr i \<and> 0 \<le> i \<and> i < p_bins p
          \<and> p_lookup p ! nat i \<le> value \<and> value < p_lookup p ! nat (i + 1))
        \<or> (intScale_loop p value lo (mid - 1) = Inl (IllegalArgument_double value)
          \<and> (value < p_lookup p ! 0 \<or> p_lookup p ! nat (p_bins p) \<le> value))"
      proof (rule "1.IH"(1)[OF True novf mid_def key_def lt len srt bins0 binsmax
            "1.prems"(5) _ _ _ upper])
        show "mid - 1 \<le> p_bins p" using mid0 by simp
        show "lo \<le> mid - 1 + 1" using mid by simp
        show "\<forall>k. 0 \<le> k \<and> k < lo \<longrightarrow> p_lookup p ! nat k < value" by (rule inv_lo)
      qed
      ultimately show ?thesis by simp
    next
      case gt
      have lower: "\<forall>k. 0 \<le> k \<and> k < mid + 1 \<longrightarrow> p_lookup p ! nat k < value"
      proof (intro allI impI)
        fix k assume k: "0 \<le> k \<and> k < mid + 1"
        show "p_lookup p ! nat k < value"
        proof (cases "k = mid")
          case True
          with gt show ?thesis by (simp add: key_def)
        next
          case False
          with k mid0 len have "p_lookup p ! nat k < p_lookup p ! nat mid"
            by (intro lookup_strict_mono[OF srt len]) simp_all
          with gt show ?thesis by (simp add: key_def)
        qed
      qed
      have "intScale_loop p value lo hi = intScale_loop p value (mid + 1) hi"
        using True novf gt
        by (simp add: intScale_loop.simps[of p "value" lo hi] mid_def key_def Let_def)
      moreover have "(\<exists>i. intScale_loop p value (mid + 1) hi = Inr i \<and> 0 \<le> i \<and> i < p_bins p
          \<and> p_lookup p ! nat i \<le> value \<and> value < p_lookup p ! nat (i + 1))
        \<or> (intScale_loop p value (mid + 1) hi = Inl (IllegalArgument_double value)
          \<and> (value < p_lookup p ! 0 \<or> p_lookup p ! nat (p_bins p) \<le> value))"
      proof (rule "1.IH"(2)[OF True novf mid_def key_def _ gt len srt bins0 binsmax _
            "1.prems"(6) _ lower inv_hi])
        show "\<not> value < key" using gt by simp
        show "0 \<le> mid + 1" using mid0 by simp
        show "mid + 1 \<le> hi + 1" using mid by simp
      qed
      ultimately show ?thesis by simp
    next
      case eq
      show ?thesis
      proof (cases "mid < p_bins p")
        case inner: True
        have "intScale_loop p value lo hi = Inr mid"
          using True novf eq inner
          by (subst intScale_loop.simps) (simp add: mid_def key_def Let_def)
        moreover have "p_lookup p ! nat mid < p_lookup p ! nat (mid + 1)"
          using inner mid0 len by (intro lookup_strict_mono[OF srt len]) simp_all
        ultimately show ?thesis using eq inner mid0 by (simp add: key_def)
      next
        case False
        with mid0 have "mid = p_bins p" by simp
        moreover have "intScale_loop p value lo hi = Inl (IllegalArgument_double value)"
          using True novf eq False
          by (subst intScale_loop.simps) (simp add: mid_def key_def Let_def)
        ultimately show ?thesis using eq by (simp add: key_def)
      qed
    qed
  next
    case False
    with "1.prems" have lo: "lo = hi + 1" by simp
    show ?thesis
    proof (cases "hi < 0 \<or> lo > p_bins p")
      case True
      then have res: "intScale_loop p value lo hi = Inl (IllegalArgument_double value)"
        using False by (simp add: intScale_loop.simps[of p "value" lo hi])
      from True show ?thesis
      proof
        assume "hi < 0"
        with lo "1.prems" have "hi = - 1" by simp
        with inv_hi[rule_format, of 0] bins0 have "value < p_lookup p ! nat 0" by simp
        with res show ?thesis by simp
      next
        assume "lo > p_bins p"
        with lo "1.prems" have "hi = p_bins p" by simp
        with inv_lo[rule_format, of "p_bins p"] bins0 lo have "p_lookup p ! nat (p_bins p) < value" by simp
        with res show ?thesis by simp
      qed
    next
      case inrange: False
      then have res: "intScale_loop p value lo hi = Inr (lo - 1)"
        using False by (simp add: intScale_loop.simps[of p "value" lo hi])
      from inrange lo have hi: "0 \<le> hi" "hi < p_bins p" by simp_all
      from inv_lo[rule_format, of hi] hi lo have "p_lookup p ! nat hi < value" by simp
      moreover from inv_hi[rule_format, of "hi + 1"] hi have "value < p_lookup p ! nat (hi + 1)" by simp
      ultimately show ?thesis using res hi lo by simp
    qed
  qed
qed


lemma intScale_sorted_table:
  assumes "0 \<le> p_bins p"
    and "length (p_lookup p) = nat (p_bins p) + 1"
    and "sorted_wrt (<) (p_lookup p)"
    and "p_bins p < 2 ^ 30"
  shows "(p_lookup p ! 0 \<le> value \<and> value < p_lookup p ! nat (p_bins p) \<longrightarrow>
            (\<exists>i. intScale p value = Inr i \<and> 0 \<le> i \<and> i < p_bins p
                 \<and> p_lookup p ! nat i \<le> value \<and> value < p_lookup p ! nat (i + 1)))
     \<and> (\<forall>i. 0 \<le> i \<and> i < p_bins p \<and> p_lookup p ! nat i = value \<longrightarrow> intScale p value = Inr i)
     \<and> (value = p_lookup p ! nat (p_bins p) \<longrightarrow> intScale p value = Inl (IllegalArgument_double value))
     \<and> (value < p_lookup p ! 0 \<or> p_lookup p ! nat (p_bins p) < value \<longrightarrow>
            intScale p value = Inl (IllegalArgument_double value))
     \<and> (\<forall>i. intScale p value = Inr i \<longrightarrow>
            0 \<le> i \<and> i < p_bins p \<and> p_lookup p ! nat i \<le> value \<and> value < p_lookup p ! nat (i + 1))"
proof -
  note len = assms(2) and srt = assms(3)
  have mono: "p_lookup p ! nat j < p_lookup p ! nat k" if "0 \<le> j" "j < k" "k \<le> p_bins p" for j k
    using that by (intro lookup_strict_mono[OF srt len])
  have mono_le: "p_lookup p ! nat j \<le> p_lookup p ! nat k" if "0 \<le> j" "j \<le> k" "k \<le> p_bins p" for j k
    using mono[of j k] that by (cases "j = k") auto
  have main: "(\<exists>i. intScale p value = Inr i \<and> 0 \<le> i \<and> i < p_bins p
          \<and> p_lookup p ! nat i \<le> value \<and> value < p_lookup p ! nat (i + 1))
     \<or> (intScale p value = Inl (IllegalArgument_double value)
          \<and> (value < p_lookup p ! 0 \<or> p_lookup p ! nat (p_bins p) \<le> value))"
    unfolding intScale_def
    using assms(1) assms(4) by (intro intScale_loop_correct[OF len srt]) simp_all
  have found: "0 \<le> i \<and> i < p_bins p \<and> p_lookup p ! nat i \<le> value \<and> value < p_lookup p ! nat (i + 1)"
    if "intScale p value = Inr i" for i
    using main that by auto
  have inside: "p_lookup p ! 0 \<le> value \<and> value < p_lookup p ! nat (p_bins p)"
    if "intScale p value = Inr i" for i
  proof -
    from found[OF that] have i: "0 \<le> i" "i < p_bins p" "p_lookup p ! nat i \<le> value"
      "value < p_lookup p ! nat (i + 1)" by simp_all
    from mono_le[of 0 i] i have "p_lookup p ! 0 \<le> p_lookup p ! nat i" by simp
    moreover from mono_le[of "i + 1" "p_bins p"] i
    have "p_lookup p ! nat (i + 1) \<le> p_lookup p ! nat (p_bins p)" by simp
    ultimately show ?thesis using i by linarith
  qed
  have c1: "p_lookup p ! 0 \<le> value \<and> value < p_lookup p ! nat (p_bins p) \<longrightarrow>
            (\<exists>i. intScale p value = Inr i \<and> 0 \<le> i \<and> i < p_bins p
                 \<and> p_lookup p ! nat i \<le> value \<and> value < p_lookup p ! nat (i + 1))"
    using main by auto
  have c2: "\<forall>i. 0 \<le> i \<and> i < p_bins p \<and> p_lookup p ! nat i = value \<longrightarrow> intScale p value = Inr i"
  proof (intro allI impI)
    fix i assume i: "0 \<le> i \<and> i < p_bins p \<and> p_lookup p ! nat i = value"
    with mono_le[of 0 i] mono[of i "p_bins p"]
    have "p_lookup p ! 0 \<le> value \<and> value < p_lookup p ! nat (p_bins p)" by auto
    with c1 obtain j where j: "intScale p value = Inr j" "0 \<le> j" "j < p_bins p"
      "p_lookup p ! nat j \<le> value" "value < p_lookup p ! nat (j + 1)" by blast
    have "j = i"
    proof (rule ccontr)
      assume "j \<noteq> i"
      then consider "j < i" | "i < j" by linarith
      then show False
      proof cases
        case 1
        with mono_le[of "j + 1" i] i j show False by auto
      next
        case 2
        with mono[of i j] i j show False by auto
      qed
    qed
    with j show "intScale p value = Inr i" by simp
  qed
  have c3: "value = p_lookup p ! nat (p_bins p) \<longrightarrow> intScale p value = Inl (IllegalArgument_double value)"
    using main inside by fastforce
  have c4: "value < p_lookup p ! 0 \<or> p_lookup p ! nat (p_bins p) < value \<longrightarrow>
            intScale p value = Inl (IllegalArgument_double value)"
    using main inside by fastforce
  have c5: "\<forall>i. intScale p value = Inr i \<longrightarrow>
            0 \<le> i \<and> i < p_bins p \<and> p_lookup p ! nat i \<le> value \<and> value < p_lookup p ! nat (i + 1)"
    using found by blast
  from c1 c2 c3 c4 c5 show ?thesis by blast
qed

text \<open>
  The search on the table of \<open>FastLogicle (10, 0, 1, 0, 1)\<close>, which is \<open>[0, 10]\<close>.
\<close>

lemma example_intScale:
  "intScale example_fast 5 = Inr 0"
  "intScale example_fast 0 = Inr 0"
  "intScale example_fast 10 = Inl (IllegalArgument_double 10)"
  "intScale example_fast 11 = Inl (IllegalArgument_double 11)"
  "intScale example_fast (- 1) = Inl (IllegalArgument_double (- 1))"
proof -
  have h: "0 \<le> p_bins example_fast"
    "length (p_lookup example_fast) = nat (p_bins example_fast) + 1"
    "sorted_wrt (<) (p_lookup example_fast)"
    "p_bins example_fast < 2 ^ 30"
    by (simp_all add: example_fast_fields)
  have in5: "p_lookup example_fast ! 0 \<le> 5 \<and> 5 < p_lookup example_fast ! nat (p_bins example_fast)"
    and in0: "p_lookup example_fast ! 0 \<le> 0 \<and> 0 < p_lookup example_fast ! nat (p_bins example_fast)"
    and top: "10 = p_lookup example_fast ! nat (p_bins example_fast)"
    and above: "11 < p_lookup example_fast ! 0 \<or> p_lookup example_fast ! nat (p_bins example_fast) < 11"
    and below: "- 1 < p_lookup example_fast ! 0 \<or> p_lookup example_fast ! nat (p_bins example_fast) < - 1"
    by (simp_all add: example_fast_fields)
  from intScale_sorted_table[OF h, of 5] in5 obtain i
    where "intScale example_fast 5 = Inr i" "0 \<le> i" "i < p_bins example_fast" by blast
  then show "intScale example_fast 5 = Inr 0" by (simp add: example_fast_fields)
  from intScale_sorted_table[OF h, of 0] in0 obtain j
    where "intScale example_fast 0 = Inr j" "0 \<le> j" "j < p_bins example_fast" by blast
  then show "intScale example_fast 0 = Inr 0" by (simp add: example_fast_fields)
  show "intScale example_fast 10 = Inl (IllegalArgument_double 10)"
    using intScale_sorted_table[OF h, of 10] top by blast
  show "intScale example_fast 11 = Inl (IllegalArgument_double 11)"
    using intScale_sorted_table[OF h, of 11] above by blast
  show "intScale example_fast (- 1) = Inl (IllegalArgument_double (- 1))"
    using intScale_sorted_table[OF h, of "- 1"] below by blast
qed

text \<open>
  A table of \<open>2^30\<close> bins. When the value lies above every entry, the search moves
  \<open>lo\<close> up until \<open>lo = hi = 2^30\<close>, and the next \<open>lo + hi\<close> is \<open>2^31\<close>.
  \<open>FastLogicle (10, 0, 1, 0, 2^30)\<close> has such a table: its entries are at most \<open>10\<close>.
\<close>

lemma intScale_loop_above:
  "p_bins p = 2 ^ 30 \<Longrightarrow> hi = 2 ^ 30 \<Longrightarrow> 0 \<le> lo \<Longrightarrow> lo \<le> hi \<Longrightarrow>
   (\<forall>k. 0 \<le> k \<and> k \<le> 2 ^ 30 \<longrightarrow> p_lookup p ! nat k < value) \<Longrightarrow>
   intScale_loop p value lo hi = Inl IntegerOverflow"
proof (induction p "value" lo hi rule: intScale_loop.induct)
  case (1 p "value" lo hi)
  note hi = "1.prems"(2) and all = "1.prems"(5)
  from "1.prems" have le: "lo \<le> hi" by simp
  define mid where "mid = (lo + hi) div 2"
  define key where "key = p_lookup p ! nat mid"
  show ?case
  proof (cases "lo + hi < INT_MIN \<or> INT_MAX < lo + hi")
    case True
    with le show ?thesis by (simp add: intScale_loop.simps[of p "value" lo hi])
  next
    case False
    with hi "1.prems"(3) have lo: "lo < 2 ^ 30" by (simp add: INT_MAX_def)
    with hi "1.prems"(3) have mid: "0 \<le> mid" "lo \<le> mid" "mid < 2 ^ 30"
      by (simp_all add: mid_def)
    with all[rule_format, of mid] have gt: "value > key" by (simp add: key_def)
    then have nlt: "\<not> value < key" by simp
    have "intScale_loop p value lo hi = intScale_loop p value (mid + 1) hi"
      using le False gt nlt
      by (simp add: intScale_loop.simps[of p "value" lo hi] mid_def key_def Let_def)
    moreover have "intScale_loop p value (mid + 1) hi = Inl IntegerOverflow"
    proof (rule "1.IH"(2)[OF le False mid_def key_def nlt gt "1.prems"(1) hi _ _ all])
      show "0 \<le> mid + 1" using mid by simp
      show "mid + 1 \<le> hi" using mid hi by simp
    qed
    ultimately show ?thesis by simp
  qed
qed

lemma example_inverse_below:
  assumes "0 \<le> s" "s \<le> 1"
  shows "\<exists>v. Logicle_inverse example_params s = Inr v \<and> v < 11"
proof -
  define E :: real where "E = exp (ln 10 * s)"
  have "exp (ln 10 * s) \<le> exp (ln (10::real) * 1)"
    using assms by (intro iffD2[OF exp_le_cancel_iff] mult_left_mono) simp_all
  then have e: "E \<le> 10" by (simp add: E_def)
  have "0 < E" by (simp add: E_def)
  then have pos: "0 < 100 / 99 / E" by simp
  from e have "100 / 99 * E \<le> 100 / 99 * 10" by simp
  with pos have "100 / 99 * E + 0 - 100 / 99 / E < 11" by linarith
  with assms show ?thesis
    unfolding E_def by (simp add: Logicle_inverse_def example_params_def Let_def)
qed

lemma intScale_overflow:
  "\<exists>p. FastLogicle 10 0 1 0 (2 ^ 30) = Inr p \<and> intScale p 11 = Inl IntegerOverflow"
proof -
  from FastLogicle_initialize_table[of "2 ^ 30" example_params] obtain lookup
    where init: "FastLogicle_initialize example_params (2 ^ 30)
        = Inr (logicle_params.extend example_params \<lparr>p_lookup = lookup, p_bins = 2 ^ 30\<rparr>)"
      and entries: "\<forall>i. 0 \<le> i \<and> i \<le> 2 ^ 30 \<longrightarrow>
        Logicle_inverse example_params (of_int i / of_int (2 ^ 30)) = Inr (lookup ! nat i)"
    by auto
  define p
    where "p = logicle_params.extend example_params \<lparr>p_lookup = lookup, p_bins = 2 ^ 30\<rparr>"
  have fields: "p_bins p = 2 ^ 30" "p_lookup p = lookup"
    by (simp_all add: p_def logicle_params.defs)
  have below: "\<forall>k. 0 \<le> k \<and> k \<le> 2 ^ 30 \<longrightarrow> p_lookup p ! nat k < 11"
  proof (intro allI impI)
    fix k :: int assume k: "0 \<le> k \<and> k \<le> 2 ^ 30"
    then have "0 \<le> (of_int k / of_int (2 ^ 30) :: real)"
      "(of_int k / of_int (2 ^ 30) :: real) \<le> 1"
      by simp_all
    from example_inverse_below[OF this] entries[rule_format, OF k]
    show "p_lookup p ! nat k < 11" by (simp add: fields)
  qed
  have "intScale p 11 = Inl IntegerOverflow"
    unfolding intScale_def
    by (rule intScale_loop_above[OF fields(1) fields(1) _ _ below]) (simp_all add: fields)
  moreover have "FastLogicle 10 0 1 0 (2 ^ 30) = Inr p"
    unfolding FastLogicle_def example_initialize_large sum.case init p_def by (rule refl)
  ultimately show ?thesis by blast
qed

text \<open>
  C6. For every \<open>FastLogicle\<close>, \<open>intScale (value)\<close> is to return the index \<open>i\<close> with
  \<open>lookup[i] \<le> value < lookup[i + 1]\<close> and to fail with \<open>IllegalArgument\<close> for a value
  outside \<open>[lookup[0], lookup[bins]]\<close>. The source does not do so on the object that
  \<open>FastLogicle (10, 0, 1, 1, 1)\<close> constructs. Its table is the one of C5: after
  the division by \<open>1 - zero = 0\<close> both entries are NaN. In \<open>intScale (5)\<close> the first
  pass has \<open>lo = 0\<close>, \<open>hi = 1\<close>, \<open>mid = 0\<close> and a NaN key; \<open>value < key\<close> and
  \<open>value > key\<close> are both false, \<open>mid < bins\<close> holds, and the function returns \<open>0\<close>,
  for this and for every other value, although no entry of the table is below or
  above the value. In the model the construction followed by the call stops at the
  division, so that there is no table to search. On a table of \<open>bins + 1\<close> strictly
  increasing entries with \<open>bins < 2^30\<close> the search does what is asked of it (lemma
  \<open>intScale_sorted_table\<close>): the defect is in the table, not in the search.
\<close>

theorem intScale_after_division_by_zero:
  "(case FastLogicle 10 0 1 1 1 of Inl e \<Rightarrow> Inl e | Inr p \<Rightarrow> intScale p 5) = Inl NonFinite"
  by (simp add: FastLogicle_def Logicle_initialize_def)

text \<open>
  C7, as amended. The double-argument \<open>FastLogicle::inverse (position)\<close> fails, with
  \<open>IllegalArgument\<close> of the position, exactly when \<open>floor (position * bins)\<close> is not in
  \<open>[0, bins)\<close>. For \<open>bins > 0\<close> that is exactly when the position lies outside
  \<open>[0, 1)\<close>; a \<open>FastLogicle\<close> with \<open>bins = 0\<close> rejects every position. Otherwise the
  function returns the linear interpolation between \<open>lookup[floor (position * bins)]\<close>
  and the next entry, weighted by the fractional part of \<open>position * bins\<close>.
\<close>

theorem FastLogicle_inverse_domain:
  "((\<exists>e. FastLogicle_inverse p s = Inl e)
       = (\<not> (0 \<le> \<lfloor>s * of_int (p_bins p)\<rfloor> \<and> \<lfloor>s * of_int (p_bins p)\<rfloor> < p_bins p)))
   \<and> (\<forall>e. FastLogicle_inverse p s = Inl e \<longrightarrow> e = IllegalArgument_double s)
   \<and> (0 < p_bins p \<longrightarrow>
         (0 \<le> \<lfloor>s * of_int (p_bins p)\<rfloor> \<and> \<lfloor>s * of_int (p_bins p)\<rfloor> < p_bins p) = (0 \<le> s \<and> s < 1))
   \<and> (0 \<le> \<lfloor>s * of_int (p_bins p)\<rfloor> \<and> \<lfloor>s * of_int (p_bins p)\<rfloor> < p_bins p \<longrightarrow>
         FastLogicle_inverse p s =
           Inr ((1 - frac (s * of_int (p_bins p))) * p_lookup p ! nat \<lfloor>s * of_int (p_bins p)\<rfloor>
                + frac (s * of_int (p_bins p)) * p_lookup p ! nat (\<lfloor>s * of_int (p_bins p)\<rfloor> + 1)))"
proof -
  have dom: "(0 \<le> \<lfloor>s * of_int (p_bins p)\<rfloor> \<and> \<lfloor>s * of_int (p_bins p)\<rfloor> < p_bins p) = (0 \<le> s \<and> s < 1)"
    if bins: "0 < p_bins p"
  proof -
    from bins have b: "0 < (of_int (p_bins p) :: real)" by simp
    have "(0 \<le> \<lfloor>s * of_int (p_bins p)\<rfloor>) = (0 \<le> s)"
      using b by (simp add: zero_le_mult_iff)
    moreover have "(\<lfloor>s * of_int (p_bins p)\<rfloor> < p_bins p) = (s < 1)"
      using b by (simp add: floor_less_iff)
    ultimately show ?thesis by simp
  qed
  show ?thesis
    using dom by (auto simp add: FastLogicle_inverse_def Let_def frac_def not_le not_less)
qed

theorem FastLogicle_inverse_domain_witness:
  "FastLogicle 10 0 1 0 1 = Inr example_fast
   \<and> FastLogicle_inverse example_fast (1 / 2) = Inr 5
   \<and> FastLogicle_inverse example_fast 1 = Inl (IllegalArgument_double 1)
   \<and> FastLogicle_inverse example_fast (- 1 / 10000) = Inl (IllegalArgument_double (- 1 / 10000))"
proof -
  have bins: "0 < p_bins example_fast" by (simp add: example_fast_fields)
  have half: "0 \<le> \<lfloor>1 / 2 * real_of_int (p_bins example_fast)\<rfloor>
      \<and> \<lfloor>1 / 2 * real_of_int (p_bins example_fast)\<rfloor> < p_bins example_fast"
    by (simp add: example_fast_fields)
  have "FastLogicle_inverse example_fast (1 / 2) =
      Inr ((1 - frac (1 / 2 * real_of_int (p_bins example_fast)))
             * p_lookup example_fast ! nat \<lfloor>1 / 2 * real_of_int (p_bins example_fast)\<rfloor>
           + frac (1 / 2 * real_of_int (p_bins example_fast))
             * p_lookup example_fast ! nat (\<lfloor>1 / 2 * real_of_int (p_bins example_fast)\<rfloor> + 1))"
    using FastLogicle_inverse_domain[of example_fast "1 / 2"] half by blast
  then have a: "FastLogicle_inverse example_fast (1 / 2) = Inr 5"
    by (simp add: example_fast_fields frac_def)
  have out1: "\<not> (0 \<le> \<lfloor>1 * real_of_int (p_bins example_fast)\<rfloor>
      \<and> \<lfloor>1 * real_of_int (p_bins example_fast)\<rfloor> < p_bins example_fast)"
    by (simp add: example_fast_fields)
  have b: "FastLogicle_inverse example_fast 1 = Inl (IllegalArgument_double 1)"
    using FastLogicle_inverse_domain[of example_fast 1] out1 by blast
  have out2: "\<not> (0 \<le> \<lfloor>- 1 / 10000 * real_of_int (p_bins example_fast)\<rfloor>
      \<and> \<lfloor>- 1 / 10000 * real_of_int (p_bins example_fast)\<rfloor> < p_bins example_fast)"
    by (simp add: example_fast_fields)
  have c: "FastLogicle_inverse example_fast (- 1 / 10000) = Inl (IllegalArgument_double (- 1 / 10000))"
    using FastLogicle_inverse_domain[of example_fast "- 1 / 10000"] out2 by blast
  from a b c example_FastLogicle show ?thesis by simp
qed

text \<open>
  C7 as it was stated, "for every \<open>FastLogicle\<close>, \<open>inverse\<close> fails exactly when the
  position lies outside \<open>[0, 1)\<close>", does not hold: \<open>FastLogicle (10, 0, 1, 0, 0)\<close> is
  constructed, and its \<open>inverse (0.5)\<close> fails.
\<close>

theorem FastLogicle_inverse_no_bins:
  "FastLogicle 10 0 1 0 0 = Inr example_fast0
   \<and> FastLogicle_inverse example_fast0 (1 / 2) = Inl (IllegalArgument_double (1 / 2))
   \<and> (0::real) \<le> 1 / 2 \<and> (1 / 2 :: real) < 1"
  by (simp add: example_FastLogicle0 FastLogicle_inverse_def example_fast_fields)

subsection \<open>Axis labels\<close>


















text \<open>
  A store of \<open>axisLabels\<close> can fall outside the vector. The bin adjustment of
  \<open>FastLogicle (10, 0, 1, 1, 3)\<close> moves zero to the position \<open>2 / 3\<close>, the bottom of the
  scale is \<open>inverse (0) = - 101\<close> while the top is \<open>T = 10\<close>, and \<open>nn = 3\<close> negative
  labels meet \<open>np = 2\<close> positive ones: the last pass of the first loop stores at index
  \<open>nn + 3 = 6\<close> of a vector of \<open>nn + np + 1 = 6\<close> entries.
\<close>

lemma floor_log10_101: "\<lfloor>ln 101 / ln 10 :: real\<rfloor> = 2"
proof -
  have "ln (100::real) \<le> ln 101" "ln (101::real) < ln 1000" by simp_all
  moreover have "ln (100::real) = 2 * ln 10" "ln (1000::real) = 3 * ln 10"
    using ln_realpow[of 10 2] ln_realpow[of 10 3] by simp_all
  ultimately have "2 \<le> ln 101 / ln (10::real)" "ln 101 / ln (10::real) < 3"
    by (simp_all add: pos_le_divide_eq pos_divide_less_eq)
  then show ?thesis by (simp add: floor_unique)
qed

lemma example3_axisLabels: "axisLabels example_params3 [] = Inl OutOfBounds"
proof -
  have f: "p_T example_params3 = 10" "p_W example_params3 = 0" "p_M example_params3 = 1"
    by (simp_all add: example_params3_def)
  show ?thesis
    by (simp add: axisLabels_def axisLabels_via_def example3_inverse Let_def LN_10_def
        resize_def store_def mirror_loop.simps positive_loop.simps f floor_log10_101
        eval_nat_numeral)
qed




end
